theory Spec2Isabelle
  imports Complex_Main "HOL-Library.Sublist"
begin

section \<open>Go strings and paths\<close>

text \<open>
  A Go \<open>string\<close> is a sequence of bytes; \<open>len\<close> counts bytes and \<open>s[:n]\<close> slices bytes.
  It is modelled as a \<open>char list\<close>. The functions of the packages \<open>strings\<close> and
  \<open>path/filepath\<close> (Unix separator) that the program calls are written out below, following
  the library's own loops.
\<close>

text \<open>\<open>strings.Index(s, sep)\<close>: the byte index of the first occurrence, \<open>None\<close> for \<open>-1\<close>.\<close>

fun strings_Index :: "string \<Rightarrow> string \<Rightarrow> nat option" where
  "strings_Index [] sep = (if sep = [] then Some 0 else None)"
| "strings_Index (c # cs) sep =
     (if prefix sep (c # cs) then Some 0 else map_option Suc (strings_Index cs sep))"

lemma strings_Index_bound:
  "strings_Index s sep = Some i \<Longrightarrow> i + length sep \<le> length s"
proof (induction s arbitrary: i)
  case Nil
  then show ?case by (simp split: if_splits)
next
  case (Cons c cs)
  show ?case
  proof (cases "prefix sep (c # cs)")
    case True
    with Cons.prems show ?thesis by (auto dest: prefix_length_le)
  next
    case False
    with Cons.prems obtain j where "strings_Index cs sep = Some j" "i = Suc j"
      by auto
    with Cons.IH show ?thesis by fastforce
  qed
qed

text \<open>
  \<open>strings.Split(s, sep)\<close> for a separator that is not empty cuts at each occurrence found by
  \<open>Index\<close>, left to right; with the empty separator it explodes the string (byte-wise here).
\<close>

function strings_Split :: "string \<Rightarrow> string \<Rightarrow> string list" where
  "strings_Split s sep =
     (if sep = [] then map (\<lambda>c. [c]) s
      else case strings_Index s sep of
             None \<Rightarrow> [s]
           | Some m \<Rightarrow> take m s # strings_Split (drop (m + length sep) s) sep)"
  by pat_completeness auto
termination
proof (relation "measure (\<lambda>(s, sep). length s)")
  show "wf (measure (\<lambda>(s, sep). length s))" by simp
next
  fix s sep :: string and m :: nat
  assume "sep \<noteq> []" and "strings_Index s sep = Some m"
  then have "m + length sep \<le> length s" and "sep \<noteq> []"
    by (auto dest: strings_Index_bound)
  then have "length (drop (m + length sep) s) < length s"
    by (cases sep) auto
  then show "((drop (m + length sep) s, sep), (s, sep)) \<in> measure (\<lambda>(s, sep). length s)"
    by simp
qed

declare strings_Split.simps [simp del]

text \<open>
  \<open>strings.ReplaceAll(s, old, new)\<close> for a pattern that is not empty: non-overlapping
  occurrences are replaced from the left. (With an empty pattern the string is returned
  unchanged here; the program never passes one.)
\<close>

function strings_ReplaceAll :: "string \<Rightarrow> string \<Rightarrow> string \<Rightarrow> string" where
  "strings_ReplaceAll [] old new = []"
| "strings_ReplaceAll (c # cs) old new =
     (if old \<noteq> [] \<and> prefix old (c # cs)
      then new @ strings_ReplaceAll (drop (length old) (c # cs)) old new
      else c # strings_ReplaceAll cs old new)"
  by pat_completeness auto
termination
  by (relation "measure (\<lambda>(s, old, new). length s)") (auto simp: Suc_le_eq)

text \<open>\<open>strings.Join(elems, sep)\<close>.\<close>

fun strings_Join :: "string list \<Rightarrow> string \<Rightarrow> string" where
  "strings_Join [] sep = []"
| "strings_Join [x] sep = x"
| "strings_Join (x # y # ys) sep = x @ sep @ strings_Join (y # ys) sep"

text \<open>\<open>strings.TrimSuffix(s, suffix)\<close>.\<close>

definition strings_TrimSuffix :: "string \<Rightarrow> string \<Rightarrow> string" where
  "strings_TrimSuffix s suf =
     (if suffix suf s then take (length s - length suf) s else s)"

text \<open>\<open>strings.Trim(s, cutset)\<close>: drop the bytes of the (ASCII) cutset from both ends.\<close>

definition strings_Trim :: "string \<Rightarrow> string \<Rightarrow> string" where
  "strings_Trim s cutset =
     rev (dropWhile (\<lambda>c. c \<in> set cutset) (rev (dropWhile (\<lambda>c. c \<in> set cutset) s)))"

text \<open>
  \<open>filepath.Base(path)\<close>: \<open>"."\<close> for the empty path; trailing separators are dropped, then
  the last element is taken; a path of separators only gives \<open>"/"\<close>.
\<close>

definition filepath_Base :: "string \<Rightarrow> string" where
  "filepath_Base path =
     (if path = [] then ''.''
      else let p = rev (dropWhile (\<lambda>c. c = CHR ''/'') (rev path));
               e = rev (takeWhile (\<lambda>c. c \<noteq> CHR ''/'') (rev p))
           in if e = [] then ''/'' else e)"

text \<open>
  \<open>filepath.Ext(path)\<close>: scanning from the end up to the last separator, the suffix that
  starts at the first dot met; empty when there is none.
\<close>

fun ext_scan :: "string \<Rightarrow> string \<Rightarrow> string" where
  "ext_scan [] acc = []"
| "ext_scan (c # cs) acc =
     (if c = CHR ''/'' then []
      else if c = CHR ''.'' then c # acc
      else ext_scan cs (c # acc))"

definition filepath_Ext :: "string \<Rightarrow> string" where
  "filepath_Ext path = ext_scan (rev path) []"

section \<open>keepnote.go\<close>

record Attachment =
  FilePath :: string
  MimeType :: string

record Label =
  Name :: string

record KeepNote =
  Title :: string
  TextContent :: string
  TextContentHTML :: string
  Attachments :: "Attachment list"
  Labels :: "Label list"
  UserEditedTimestampUsec :: int
  CreatedTimestampUsec :: int
  IsArchived :: bool

text \<open>
  \<open>processLabels\<close>: the loop appends one hashtag per label to the slice \<open>hashtags\<close>, which
  is then joined with a single space.
\<close>

fun processLabels_loop :: "Label list \<Rightarrow> string list \<Rightarrow> string list" where
  "processLabels_loop [] hashtags = hashtags"
| "processLabels_loop (label # labels) hashtags =
     (let hashtag = strings_ReplaceAll (Name label) '' '' ''_''
      in processLabels_loop labels (hashtags @ [''#'' @ hashtag]))"

definition processLabels :: "Label list \<Rightarrow> string" where
  "processLabels labels = strings_Join (processLabels_loop labels []) '' ''"

text \<open>
  \<open>shortenFilename\<close>. The three pattern strings are passed to \<open>strings.Split\<close>, which takes
  its separator literally; the first piece of the result is kept. The separators are not
  empty, so the result of \<open>Split\<close> has a first element.
\<close>

definition timestampPatterns :: "string list" where
  "timestampPatterns =
     [ [CHR 0x5C] @ ''d{4}-'' @ [CHR 0x5C] @ ''d{2}-'' @ [CHR 0x5C] @ ''d{2}T''
         @ [CHR 0x5C] @ ''d{2}_'' @ [CHR 0x5C] @ ''d{2}_'' @ [CHR 0x5C] @ ''d{2}'',
       [CHR 0x5C] @ ''d{4}-'' @ [CHR 0x5C] @ ''d{2}-'' @ [CHR 0x5C] @ ''d{2}'',
       [CHR 0x5C] @ ''d{2}_'' @ [CHR 0x5C] @ ''d{2}_'' @ [CHR 0x5C] @ ''d{2}'' ]"

fun strip_patterns :: "string list \<Rightarrow> string \<Rightarrow> string" where
  "strip_patterns [] base = base"
| "strip_patterns (pattern # patterns) base =
     strip_patterns patterns (hd (strings_Split base pattern))"

definition shortenFilename :: "string \<Rightarrow> string" where
  "shortenFilename filename =
     (let name = filepath_Base filename;
          ext = filepath_Ext filename;
          base = strings_TrimSuffix name ext;
          base = strip_patterns timestampPatterns base;
          base = strings_Trim base ''._- ''
      in if length base > 15 then take 15 base @ ''...'' else base)"

section \<open>dynalist.go\<close>

text \<open>A \<open>time.Duration\<close> is a number of nanoseconds.\<close>

definition Second :: int where
  "Second = 1000000000"

definition dynalistAPIURL :: string where
  "dynalistAPIURL = ''https://dynalist.io/api/v1/inbox/add''"

definition maxRetries :: int where
  "maxRetries = 5"

definition minDelay :: int where
  "minDelay = 2 * Second"

definition maxDelay :: int where
  "maxDelay = 60 * Second"

definition minPause :: int where
  "minPause = 1 * Second"

definition maxPause :: int where
  "maxPause = 3 * Second"

record DynalistResponse =
  Code :: string
  Message :: string
  FileID :: string
  NodeID :: string
  Index :: int

record DynalistRequest =
  Token :: string
  Index :: int
  Content :: string
  Note :: string
  Checked :: bool
  Checkbox :: bool

record RetryStats =
  TotalCalls :: int
  SuccessfulCalls :: int
  FailedCalls :: int
  Retries :: int
  LastError :: string
  LastStatus :: string

text \<open>
  An HTTP request as \<open>http.NewRequest\<close> builds it. The body is the JSON text of a
  \<open>DynalistRequest\<close>; it is kept as the record it encodes.
\<close>

record HttpRequest =
  Method :: string
  URL :: string
  Header :: "(string \<times> string) list"
  Body :: DynalistRequest

text \<open>
  What one round trip gives back: \<open>client.Do\<close> fails, or the body does not decode into a
  \<open>DynalistResponse\<close>, or it does.
\<close>

datatype reply =
    TransportError string
  | Undecodable string
  | Decoded DynalistResponse

text \<open>The effects of the program that can be observed from outside, in the order they happen.\<close>

datatype event =
    Sleep int
  | HttpPost HttpRequest
  | Stat string
  | Upload string

text \<open>
  The state the program runs in: the global \<open>Stats\<close>, the effects so far, and what the
  outside will answer: the replies of the endpoint to the requests still to come, the values
  the random source will produce, and the files that exist.
\<close>

record World =
  Stats :: RetryStats
  events :: "event list"
  replies :: "nat \<Rightarrow> reply"
  draws :: "nat \<Rightarrow> nat"
  fileExists :: "string \<Rightarrow> bool"

definition time_Sleep :: "int \<Rightarrow> World \<Rightarrow> World" where
  "time_Sleep d w = w\<lparr>events := events w @ [Sleep d]\<rparr>"

text \<open>
  \<open>rand.Int63n(n)\<close> returns the accepted 63-bit value modulo \<open>n\<close>; \<open>rand.Float64()\<close> returns
  \<open>Int63n(1 << 53) / (1 << 53)\<close>. Each takes the next value of the random source.
\<close>

definition rand_Int63n :: "int \<Rightarrow> World \<Rightarrow> int \<times> World" where
  "rand_Int63n n w = (int (draws w 0) mod n, w\<lparr>draws := draws w \<circ> Suc\<rparr>)"

definition rand_Float64 :: "World \<Rightarrow> real \<times> World" where
  "rand_Float64 w =
     (let (k, w) = rand_Int63n (2 ^ 53) w in (real_of_int k / 2 ^ 53, w))"

text \<open>
  \<open>json.Marshal\<close> of a struct of strings, integers and booleans and \<open>http.NewRequest\<close> with
  the method \<open>POST\<close> and the fixed URL do not fail; their error results stay in the
  model as values that are never produced.
\<close>

definition json_Marshal :: "DynalistRequest \<Rightarrow> string + DynalistRequest" where
  "json_Marshal reqBody = Inr reqBody"

definition http_NewRequest :: "string \<Rightarrow> string \<Rightarrow> DynalistRequest \<Rightarrow> string + HttpRequest" where
  "http_NewRequest method url body =
     Inr \<lparr>Method = method, URL = url, Header = [], Body = body\<rparr>"

text \<open>\<open>client.Do\<close> followed by decoding the body: the request goes out, the next reply comes in.\<close>

definition client_Do :: "HttpRequest \<Rightarrow> World \<Rightarrow> reply \<times> World" where
  "client_Do req w =
     (replies w 0, w\<lparr>events := events w @ [HttpPost req], replies := replies w \<circ> Suc\<rparr>)"

text \<open>
  \<open>math.Pow(2, float64(retry))\<close> at an integer exponent, and the conversion of a
  \<open>float64\<close> to a \<open>time.Duration\<close>, which drops the fraction. \<open>float64\<close> arithmetic is
  modelled by exact arithmetic on the reals.
\<close>

definition math_Pow :: "real \<Rightarrow> int \<Rightarrow> real" where
  "math_Pow x n = (if 0 \<le> n then x ^ nat n else 1 / x ^ nat (- n))"

definition Duration_of_float :: "real \<Rightarrow> int" where
  "Duration_of_float x = (if 0 \<le> x then \<lfloor>x\<rfloor> else \<lceil>x\<rceil>)"

text \<open>\<open>calculateBackoff\<close>, first for a given value of \<open>jitter\<close>, then with the value drawn.\<close>

definition backoff_with :: "real \<Rightarrow> int \<Rightarrow> int" where
  "backoff_with jitter retry =
     (let backoff = real_of_int minDelay * math_Pow 2 retry;
          backoff = backoff * jitter;
          backoff = (if backoff > real_of_int maxDelay then real_of_int maxDelay else backoff)
      in Duration_of_float backoff)"

definition calculateBackoff :: "int \<Rightarrow> World \<Rightarrow> int \<times> World" where
  "calculateBackoff retry w =
     (let (u, w) = rand_Float64 w;
          jitter = 0.5 + u
      in (backoff_with jitter retry, w))"

text \<open>
  One pass through the body of the retry loop ends in \<open>continue\<close> (or falls through to the
  next iteration), in \<open>break\<close>, or in \<open>return\<close>.
\<close>

datatype flow =
    Continue "string option" int World
  | Break "string option" World
  | Return "string option" World

definition loop_body :: "DynalistRequest \<Rightarrow> string option \<Rightarrow> int \<Rightarrow> World \<Rightarrow> flow" where
  "loop_body jsonData lastErr retryCount w =
     (case http_NewRequest ''POST'' dynalistAPIURL jsonData of
        Inl err \<Rightarrow> Return (Some (''failed to create request: '' @ err)) w
      | Inr req \<Rightarrow>
          (let req = req\<lparr>Header := (''Content-Type'', ''application/json'') # Header req\<rparr>;
               (resp, w) = client_Do req w
           in case resp of
                TransportError err \<Rightarrow>
                  (let msg = ''failed to send request: '' @ err;
                       w = w\<lparr>Stats := (Stats w)\<lparr>LastError := msg\<rparr>\<rparr>;
                       retryCount = retryCount + 1;
                       w = w\<lparr>Stats := (Stats w)\<lparr>Retries := Retries (Stats w) + 1\<rparr>\<rparr>
                   in if retryCount > maxRetries then Break (Some msg) w
                      else (let (delay, w) = calculateBackoff retryCount w;
                                w = time_Sleep delay w
                            in Continue (Some msg) retryCount w))
              | Undecodable err \<Rightarrow>
                  (let msg = ''failed to decode response: '' @ err;
                       w = w\<lparr>Stats := (Stats w)\<lparr>LastError := msg\<rparr>\<rparr>;
                       retryCount = retryCount + 1;
                       w = w\<lparr>Stats := (Stats w)\<lparr>Retries := Retries (Stats w) + 1\<rparr>\<rparr>
                   in if retryCount > maxRetries then Break (Some msg) w
                      else (let (delay, w) = calculateBackoff retryCount w;
                                w = time_Sleep delay w
                            in Continue (Some msg) retryCount w))
              | Decoded dynalistResp \<Rightarrow>
                  if Code dynalistResp = ''Ok''
                  then Return None
                         (w\<lparr>Stats := (Stats w)\<lparr>SuccessfulCalls := SuccessfulCalls (Stats w) + 1,
                                               LastStatus := ''Success''\<rparr>\<rparr>)
                  else
                    (let msg = ''dynalist API error: '' @ Code dynalistResp;
                         msg = (if Message dynalistResp \<noteq> []
                                then ''dynalist API error: '' @ Message dynalistResp else msg);
                         w = w\<lparr>Stats := (Stats w)\<lparr>LastError := msg\<rparr>\<rparr>
                     in if Code dynalistResp \<noteq> ''TooManyRequests'' \<and> retryCount \<ge> 2
                        then Break (Some msg) w
                        else
                          (let retryCount = retryCount + 1;
                               w = w\<lparr>Stats := (Stats w)\<lparr>Retries := Retries (Stats w) + 1\<rparr>\<rparr>
                           in if retryCount > maxRetries then Break (Some msg) w
                              else (let (delay, w) = calculateBackoff retryCount w;
                                        w = time_Sleep delay w
                                    in Continue (Some msg) retryCount w)))))"

text \<open>The statements after the loop: the call has failed.\<close>

definition after_loop :: "string option \<Rightarrow> World \<Rightarrow> string option \<times> World" where
  "after_loop lastErr w =
     (lastErr, w\<lparr>Stats := (Stats w)\<lparr>FailedCalls := FailedCalls (Stats w) + 1,
                                     LastStatus := ''Failed''\<rparr>\<rparr>)"

lemma loop_body_Continue_count:
  "loop_body jsonData lastErr retryCount w = Continue lastErr' retryCount' w'
   \<Longrightarrow> retryCount' = retryCount + 1 \<and> retryCount' \<le> maxRetries"
  by (auto simp: loop_body_def http_NewRequest_def Let_def
      split: sum.splits prod.splits reply.splits if_splits)

function AddToDynalist_loop ::
  "DynalistRequest \<Rightarrow> string option \<Rightarrow> int \<Rightarrow> World \<Rightarrow> string option \<times> World" where
  "AddToDynalist_loop jsonData lastErr retryCount w =
     (if retryCount \<le> maxRetries
      then (case loop_body jsonData lastErr retryCount w of
              Continue lastErr' retryCount' w' \<Rightarrow> AddToDynalist_loop jsonData lastErr' retryCount' w'
            | Break lastErr' w' \<Rightarrow> after_loop lastErr' w'
            | Return r w' \<Rightarrow> (r, w'))
      else after_loop lastErr w)"
  by pat_completeness auto
termination
  by (relation "measure (\<lambda>(jsonData, lastErr, retryCount, w). nat (maxRetries + 1 - retryCount))")
     (auto dest: loop_body_Continue_count)

declare AddToDynalist_loop.simps [simp del]

text \<open>
  \<open>AddToDynalist\<close>: the value returned is \<open>None\<close> for \<open>nil\<close> and \<open>Some\<close> of the message of
  the error otherwise.
\<close>

definition AddToDynalist :: "string \<Rightarrow> string \<Rightarrow> string \<Rightarrow> World \<Rightarrow> string option \<times> World" where
  "AddToDynalist token content note w =
     (let (r, w) = rand_Int63n (maxPause - minPause) w;
          randomPause = minPause + r;
          w = time_Sleep randomPause w;
          reqBody = \<lparr>Token = token, Index = 0, Content = content, Note = note,
                     Checked = False, Checkbox = False\<rparr>
      in case json_Marshal reqBody of
           Inl err \<Rightarrow> (Some (''failed to marshal request: '' @ err), w)
         | Inr jsonData \<Rightarrow>
             (let lastErr = None;
                  retryCount = 0;
                  w = w\<lparr>Stats := (Stats w)\<lparr>TotalCalls := TotalCalls (Stats w) + 1\<rparr>\<rparr>
              in AddToDynalist_loop jsonData lastErr retryCount w))"

section \<open>main.go\<close>

text \<open>
  \<open>findAttachmentFile\<close> joins the folder and the attachment's path and asks the file system
  whether the result exists (\<open>os.Stat\<close>). \<open>filepath.Join\<close>, which also cleans the joined
  path, is the parameter \<open>join\<close>. The result is the error message or the path found.
\<close>

definition findAttachmentFile ::
  "(string \<Rightarrow> string \<Rightarrow> string) \<Rightarrow> string \<Rightarrow> string \<Rightarrow> World \<Rightarrow> (string + string) \<times> World" where
  "findAttachmentFile join folderPath attachmentPath w =
     (let attachmentFile = join folderPath attachmentPath;
          w = w\<lparr>events := events w @ [Stat attachmentFile]\<rparr>
      in if fileExists w attachmentFile then (Inr attachmentFile, w)
         else (Inl (''attachment file not found: '' @ attachmentPath), w))"

text \<open>
  The storage client is not part of the sources at hand. A client is what its method
  \<open>UploadLocalFile\<close> answers for a local path: an error message or the URL of the upload.
  A pointer to a client that may be \<open>nil\<close> is an \<open>option\<close>.
\<close>

type_synonym CloudflareR2Client = "string \<Rightarrow> string + string"

definition UploadLocalFile :: "CloudflareR2Client \<Rightarrow> string \<Rightarrow> World \<Rightarrow> (string + string) \<times> World" where
  "UploadLocalFile r2Client file w = (r2Client file, w\<lparr>events := events w @ [Upload file]\<rparr>)"

text \<open>The loop over the attachments of a note; a failed attachment is passed over.\<close>

fun attachments_loop ::
  "(string \<Rightarrow> string \<Rightarrow> string) \<Rightarrow> CloudflareR2Client \<Rightarrow> string \<Rightarrow> Attachment list
    \<Rightarrow> string list \<Rightarrow> World \<Rightarrow> string list \<times> World" where
  "attachments_loop join r2Client folderPath [] attachmentLinks w = (attachmentLinks, w)"
| "attachments_loop join r2Client folderPath (attachment # rest) attachmentLinks w =
     (case findAttachmentFile join folderPath (FilePath attachment) w of
        (Inl err, w) \<Rightarrow> attachments_loop join r2Client folderPath rest attachmentLinks w
      | (Inr attachmentFile, w) \<Rightarrow>
          (case UploadLocalFile r2Client attachmentFile w of
             (Inl err, w) \<Rightarrow> attachments_loop join r2Client folderPath rest attachmentLinks w
           | (Inr r2URL, w) \<Rightarrow>
               attachments_loop join r2Client folderPath rest
                 (attachmentLinks @ [''['' @ FilePath attachment @ '']('' @ r2URL @ '')'']) w))"

text \<open>
  \<open>processMessage\<close> (lines written to the log are not part of the model). The first
  component of the result is the error returned, \<open>None\<close> for \<open>nil\<close>.
\<close>

definition processMessage ::
  "(string \<Rightarrow> string \<Rightarrow> string) \<Rightarrow> KeepNote \<Rightarrow> string \<Rightarrow> string \<Rightarrow> CloudflareR2Client option
    \<Rightarrow> string \<Rightarrow> World \<Rightarrow> string option \<times> World" where
  "processMessage join note folderPath dynalistToken r2Client filePath w =
     (let (attachmentLinks, w) =
            (case r2Client of
               None \<Rightarrow> ([], w)
             | Some client \<Rightarrow>
                 if length (Attachments note) > 0
                 then attachments_loop join client folderPath (Attachments note) [] w
                 else ([], w));
          hashtags = processLabels (Labels note);
          noteContent = TextContent note;
          noteContent =
            (if length attachmentLinks > 0
             then noteContent @ ''\<newline>\<newline>Attachments:\<newline>''
                    @ strings_Join attachmentLinks ''\<newline>''
             else noteContent);
          noteContent =
            (if hashtags \<noteq> [] then noteContent @ ''\<newline>\<newline>'' @ hashtags else noteContent);
          title = Title note;
          title = (if title = [] then shortenFilename filePath else title);
          title = ''gkeep: '' @ title
      in AddToDynalist dynalistToken title noteContent w)"

section \<open>Observations and reference definitions\<close>

text \<open>
  What the properties below are stated with: the request that every attempt sends, the
  requests among a list of events, a state in which nothing has happened yet, and, written
  from the specification, the rule that says when a failed attempt is retried
  (\<open>spec_retry k r\<close>: the reply \<open>r\<close> came after \<open>k\<close> retries), the number of
  attempts that this rule prescribes for a sequence of replies, and the shape of the events
  that follow the first request (a backoff sleep and a request, for each retry).
\<close>

definition payload :: "string \<Rightarrow> string \<Rightarrow> string \<Rightarrow> DynalistRequest" where
  "payload token content note =
     \<lparr>Token = token, Index = 0, Content = content, Note = note, Checked = False, Checkbox = False\<rparr>"


definition initial_World :: "(nat \<Rightarrow> reply) \<Rightarrow> (nat \<Rightarrow> nat) \<Rightarrow> (string \<Rightarrow> bool) \<Rightarrow> World" where
  "initial_World rs ds fs =
     \<lparr>Stats = \<lparr>TotalCalls = 0, SuccessfulCalls = 0, FailedCalls = 0, Retries = 0,
               LastError = [], LastStatus = []\<rparr>,
      events = [], replies = rs, draws = ds, fileExists = fs\<rparr>"

fun is_Ok :: "reply \<Rightarrow> bool" where
  "is_Ok (Decoded r) = (Code r = ''Ok'')"
| "is_Ok r = False"

definition request_for :: "DynalistRequest \<Rightarrow> HttpRequest" where
  "request_for jsonData =
     \<lparr>Method = ''POST'', URL = dynalistAPIURL,
      Header = [(''Content-Type'', ''application/json'')], Body = jsonData\<rparr>"

fun requests_of :: "event list \<Rightarrow> HttpRequest list" where
  "requests_of [] = []"
| "requests_of (HttpPost r # es) = r # requests_of es"
| "requests_of (e # es) = requests_of es"

fun spec_retry :: "int \<Rightarrow> reply \<Rightarrow> bool" where
  "spec_retry k (TransportError err) = (k < maxRetries)"
| "spec_retry k (Undecodable err) = (k < maxRetries)"
| "spec_retry k (Decoded r) =
     (if Code r = ''Ok'' then False
      else if Code r = ''TooManyRequests'' then k < maxRetries
      else k < 2)"

lemma spec_retry_lt: "spec_retry k r \<Longrightarrow> k < maxRetries"
  by (cases r) (auto simp: maxRetries_def split: if_splits)

function spec_attempts :: "int \<Rightarrow> (nat \<Rightarrow> reply) \<Rightarrow> nat" where
  "spec_attempts k rs =
     (if spec_retry k (rs 0) then Suc (spec_attempts (k + 1) (rs \<circ> Suc)) else 1)"
  by pat_completeness auto
termination
  by (relation "measure (\<lambda>(k, rs). nat (maxRetries - k))") (auto dest: spec_retry_lt)

declare spec_attempts.simps [simp del]

fun retry_pairs :: "HttpRequest \<Rightarrow> event list \<Rightarrow> bool" where
  "retry_pairs rq [] = True"
| "retry_pairs rq (Sleep d # HttpPost r # es) =
     (r = rq \<and> minDelay \<le> d \<and> d \<le> maxDelay \<and> retry_pairs rq es)"
| "retry_pairs rq es = False"

text \<open>The file look-ups and uploads among a list of events.\<close>

fun attachment_events :: "event list \<Rightarrow> event list" where
  "attachment_events [] = []"
| "attachment_events (Stat p # es) = Stat p # attachment_events es"
| "attachment_events (Upload p # es) = Upload p # attachment_events es"
| "attachment_events (e # es) = attachment_events es"

section \<open>Properties of the label normalizer and of the title from the file name\<close>

lemma strings_ReplaceAll_char:
  "strings_ReplaceAll s [a] [b] = map (\<lambda>c. if c = a then b else c) s"
  by (induction s) auto

lemma processLabels_loop_map:
  "processLabels_loop labels acc =
     acc @ map (\<lambda>l. CHR ''#'' # map (\<lambda>c. if c = CHR '' '' then CHR ''_'' else c) (Name l)) labels"
  by (induction labels arbitrary: acc) (simp_all add: strings_ReplaceAll_char)

lemma strings_Index_absent: "c \<notin> set h \<Longrightarrow> strings_Index h [c] = None"
  by (induction h) auto

lemma strings_Index_first:
  "c \<notin> set h \<Longrightarrow> strings_Index (h @ c # rest) [c] = Some (length h)"
  by (induction h) auto

lemma strings_Split_Join:
  "hs \<noteq> [] \<Longrightarrow> \<forall>h\<in>set hs. c \<notin> set h \<Longrightarrow> strings_Split (strings_Join hs [c]) [c] = hs"
proof (induction hs "[c]" rule: strings_Join.induct)
  case 1
  then show ?case by simp
next
  case (2 x)
  then show ?case by (simp add: strings_Split.simps strings_Index_absent)
next
  case (3 x y ys)
  then have "strings_Split (strings_Join (y # ys) [c]) [c] = y # ys" by simp
  moreover have "strings_Index (x @ c # strings_Join (y # ys) [c]) [c] = Some (length x)"
    using 3 by (simp add: strings_Index_first)
  ultimately show ?case
    by (subst strings_Split.simps) simp
qed

text \<open>
  C9. For every list of labels, \<open>processLabels\<close> returns the hashtags of the labels, in the
  order of the list and without removing duplicates, joined by one space; the hashtag of a
  label is \<open>#\<close> followed by the name with each space replaced by an underscore. Cutting the
  result of a list that is not empty at the spaces gives back exactly these hashtags, as many
  as there are labels, none of them containing a space. The empty list gives the empty string.
\<close>

theorem processLabels_hashtags:
  "processLabels [] = [] \<and>
   processLabels labels =
     strings_Join
       (map (\<lambda>l. CHR ''#'' # map (\<lambda>c. if c = CHR '' '' then CHR ''_'' else c) (Name l)) labels)
       '' '' \<and>
   (labels \<noteq> [] \<longrightarrow>
      strings_Split (processLabels labels) '' '' =
        map (\<lambda>l. CHR ''#'' # map (\<lambda>c. if c = CHR '' '' then CHR ''_'' else c) (Name l)) labels \<and>
      length (strings_Split (processLabels labels) '' '') = length labels \<and>
      (\<forall>h \<in> set (strings_Split (processLabels labels) '' '').
          CHR '' '' \<notin> set h \<and> hd h = CHR ''#''))"
proof -
  let ?tag = "\<lambda>l. CHR ''#'' # map (\<lambda>c. if c = CHR '' '' then CHR ''_'' else c) (Name l)"
  have eq: "processLabels labels = strings_Join (map ?tag labels) '' ''"
    by (simp add: processLabels_def processLabels_loop_map)
  have nosp: "\<forall>h\<in>set (map ?tag labels). CHR '' '' \<notin> set h" by auto
  have split: "strings_Split (processLabels labels) '' '' = map ?tag labels" if "labels \<noteq> []"
    unfolding eq using that nosp by (intro strings_Split_Join) simp_all
  show ?thesis
    using eq split by (auto simp: processLabels_def)
qed

theorem processLabels_hashtags_witness:
  "processLabels [\<lparr>Name = ''Work''\<rparr>, \<lparr>Name = ''A B''\<rparr>, \<lparr>Name = ''Work''\<rparr>] = ''#Work #A_B #Work'' \<and>
   strings_Split ''#Work #A_B #Work'' '' '' = [''#Work'', ''#A_B'', ''#Work'']"
proof -
  have v: "processLabels [\<lparr>Name = ''Work''\<rparr>, \<lparr>Name = ''A B''\<rparr>, \<lparr>Name = ''Work''\<rparr>]
             = ''#Work #A_B #Work''"
    by code_simp
  show ?thesis
    using processLabels_hashtags [of "[\<lparr>Name = ''Work''\<rparr>, \<lparr>Name = ''A B''\<rparr>, \<lparr>Name = ''Work''\<rparr>]"]
    unfolding v by simp
qed

text \<open>
  C8. A file name that carries a time stamp of the form YYYY-MM-DDThh_mm_ss keeps it: the
  extension is removed, the time stamp stays, and the cut to 15 bytes falls inside it. The
  second file name is the one given as an example in the comment of \<open>shortenFilename\<close>.
\<close>

theorem shortenFilename_timestamp_kept:
  "shortenFilename ''Shopping 2024-03-25T19_29_21.json'' = ''Shopping 2024-0...'' \<and>
   shortenFilename ''/takeout/Keep/2024-03-25T19_29_21.446+01_00.json'' = ''2024-03-25T19_2...''"
  by code_simp

section \<open>Properties of the backoff\<close>

lemma backoff_with_eq:
  "0 \<le> n \<Longrightarrow> 0 \<le> j \<Longrightarrow>
   backoff_with j n = \<lfloor>min (real_of_int minDelay * 2 ^ nat n * j) (real_of_int maxDelay)\<rfloor>"
  by (auto simp: backoff_with_def Let_def math_Pow_def Duration_of_float_def min_def
      minDelay_def maxDelay_def Second_def)

lemma backoff_with_le_maxDelay:
  assumes "0 \<le> n" "0 \<le> j"
  shows "backoff_with j n \<le> maxDelay"
proof -
  have "\<lfloor>min (real_of_int minDelay * 2 ^ nat n * j) (real_of_int maxDelay)\<rfloor> \<le> \<lfloor>real_of_int maxDelay\<rfloor>"
    by (rule floor_mono) simp
  with assms show ?thesis by (simp add: backoff_with_eq)
qed


lemma backoff_with_ge_minDelay:
  assumes "1 \<le> n" "1/2 \<le> j"
  shows "minDelay \<le> backoff_with j n"
proof -
  have "(2::real) ^ 1 \<le> 2 ^ nat n"
    using assms(1) by (intro power_increasing) simp_all
  then have "2 * (1/2) \<le> (2::real) ^ nat n * j"
    using assms(2) by (intro mult_mono) simp_all
  then have "real_of_int minDelay * 1 \<le> real_of_int minDelay * ((2::real) ^ nat n * j)"
    by (intro mult_left_mono) (simp_all add: minDelay_def Second_def)
  then have "real_of_int minDelay \<le> min (real_of_int minDelay * 2 ^ nat n * j) (real_of_int maxDelay)"
    by (simp add: minDelay_def maxDelay_def Second_def mult.assoc)
  then have "\<lfloor>real_of_int minDelay\<rfloor> \<le> \<lfloor>min (real_of_int minDelay * 2 ^ nat n * j) (real_of_int maxDelay)\<rfloor>"
    by (rule floor_mono)
  then show ?thesis
    using assms by (simp add: backoff_with_eq)
qed

lemma rand_Float64_range:
  "0 \<le> fst (rand_Float64 w) \<and> fst (rand_Float64 w) < 1"
  by (simp add: rand_Float64_def rand_Int63n_def Let_def split_def)

lemma calculateBackoff_fst:
  "fst (calculateBackoff n w) = backoff_with (0.5 + fst (rand_Float64 w)) n"
  by (simp add: calculateBackoff_def Let_def split_def)

lemma calculateBackoff_snd:
  "snd (calculateBackoff n w) = w\<lparr>draws := draws w \<circ> Suc\<rparr>"
  by (simp add: calculateBackoff_def rand_Float64_def rand_Int63n_def Let_def split_def)

lemma calculateBackoff_bounds:
  assumes "1 \<le> n"
  shows "minDelay \<le> fst (calculateBackoff n w) \<and> fst (calculateBackoff n w) \<le> maxDelay"
proof -
  let ?j = "0.5 + fst (rand_Float64 w)"
  have j: "1/2 \<le> ?j" "0 \<le> ?j" using rand_Float64_range [of w] by simp_all
  show ?thesis
    unfolding calculateBackoff_fst
    using backoff_with_ge_minDelay [OF assms j(1)] backoff_with_le_maxDelay [OF _ j(2), of n] assms
    by simp
qed



section \<open>Properties of the delivery client\<close>

lemma requests_of_append: "requests_of (xs @ ys) = requests_of xs @ requests_of ys"
  by (induction xs rule: requests_of.induct) simp_all

lemma loop_body_Continue:
  assumes "loop_body jsonData lastErr retryCount w = Continue lastErr' retryCount' w'"
  shows "retryCount' = retryCount + 1" and "retryCount' \<le> maxRetries"
    and "spec_retry retryCount (replies w 0)"
    and "replies w' = replies w \<circ> Suc"
    and "draws w' = draws w \<circ> Suc"
    and "fileExists w' = fileExists w"
    and "events w' = events w @ [HttpPost (request_for jsonData),
           Sleep (fst (calculateBackoff retryCount'
             (w\<lparr>events := events w @ [HttpPost (request_for jsonData)], replies := replies w \<circ> Suc\<rparr>)))]"
    and "lastErr' = Some (LastError (Stats w'))"
    and "TotalCalls (Stats w') = TotalCalls (Stats w)"
    and "SuccessfulCalls (Stats w') = SuccessfulCalls (Stats w)"
    and "FailedCalls (Stats w') = FailedCalls (Stats w)"
    and "Retries (Stats w') = Retries (Stats w) + 1"
  using assms
  by (auto simp: loop_body_def http_NewRequest_def client_Do_def request_for_def Let_def
      time_Sleep_def calculateBackoff_def rand_Float64_def rand_Int63n_def maxRetries_def
      split: sum.splits prod.splits reply.splits if_splits)

lemma loop_body_Break:
  assumes "loop_body jsonData lastErr retryCount w = Break lastErr' w'"
    and "retryCount \<le> maxRetries"
  shows "\<not> spec_retry retryCount (replies w 0)"
    and "\<not> is_Ok (replies w 0)"
    and "replies w' = replies w \<circ> Suc"
    and "draws w' = draws w"
    and "fileExists w' = fileExists w"
    and "events w' = events w @ [HttpPost (request_for jsonData)]"
    and "lastErr' = Some (LastError (Stats w'))"
    and "TotalCalls (Stats w') = TotalCalls (Stats w)"
    and "SuccessfulCalls (Stats w') = SuccessfulCalls (Stats w)"
    and "FailedCalls (Stats w') = FailedCalls (Stats w)"
    and "LastStatus (Stats w') = LastStatus (Stats w)"
    and "Retries (Stats w) \<le> Retries (Stats w')" and "Retries (Stats w') \<le> Retries (Stats w) + 1"
  using assms
  by (auto simp: loop_body_def http_NewRequest_def client_Do_def request_for_def Let_def
      time_Sleep_def maxRetries_def
      split: sum.splits prod.splits reply.splits if_splits)

lemma loop_body_Return:
  assumes "loop_body jsonData lastErr retryCount w = Return r w'"
  shows "r = None"
    and "\<not> spec_retry retryCount (replies w 0)"
    and "replies w' = replies w \<circ> Suc"
    and "draws w' = draws w"
    and "fileExists w' = fileExists w"
    and "events w' = events w @ [HttpPost (request_for jsonData)]"
    and "Stats w' = (Stats w)\<lparr>SuccessfulCalls := SuccessfulCalls (Stats w) + 1, LastStatus := ''Success''\<rparr>"
    and "is_Ok (replies w 0)"
  using assms
  by (auto simp: loop_body_def http_NewRequest_def client_Do_def request_for_def Let_def
      time_Sleep_def
      split: sum.splits prod.splits reply.splits if_splits)

lemma spec_attempts_retry:
  "spec_retry k (rs 0) \<Longrightarrow> spec_attempts k rs = Suc (spec_attempts (k + 1) (rs \<circ> Suc))"
  by (subst spec_attempts.simps) simp

lemma spec_attempts_stop: "\<not> spec_retry k (rs 0) \<Longrightarrow> spec_attempts k rs = 1"
  by (subst spec_attempts.simps) simp

lemma spec_attempts_pos: "1 \<le> spec_attempts k rs"
  by (subst spec_attempts.simps) simp

lemma spec_attempts_bound:
  "k \<le> maxRetries \<Longrightarrow> int (spec_attempts k rs) \<le> maxRetries + 1 - k"
proof (induction k rs rule: spec_attempts.induct)
  case (1 k rs)
  show ?case
  proof (cases "spec_retry k (rs 0)")
    case True
    then have "k + 1 \<le> maxRetries" using spec_retry_lt by fastforce
    with 1 True show ?thesis by (simp add: spec_attempts_retry o_def)
  next
    case False
    with 1 show ?thesis by (simp add: spec_attempts_stop)
  qed
qed

lemma loop_requests:
  "retryCount \<le> maxRetries \<Longrightarrow>
   requests_of (events (snd (AddToDynalist_loop jsonData lastErr retryCount w))) =
     requests_of (events w) @
       replicate (spec_attempts retryCount (replies w)) (request_for jsonData)"
proof (induction jsonData lastErr retryCount w rule: AddToDynalist_loop.induct)
  case (1 jsonData lastErr retryCount w)
  show ?case
  proof (cases "loop_body jsonData lastErr retryCount w")
    case (Continue lastErr' retryCount' w')
    note b = loop_body_Continue [OF Continue]
    have "requests_of (events (snd (AddToDynalist_loop jsonData lastErr' retryCount' w'))) =
        requests_of (events w') @
          replicate (spec_attempts retryCount' (replies w')) (request_for jsonData)"
      using "1.IH" [OF "1.prems" Continue] b(2) by simp
    moreover have "AddToDynalist_loop jsonData lastErr retryCount w =
        AddToDynalist_loop jsonData lastErr' retryCount' w'"
      using "1.prems" Continue by (subst AddToDynalist_loop.simps) simp
    ultimately show ?thesis
      using b(1,3,4,7) by (simp add: spec_attempts_retry requests_of_append replicate_app_Cons_same)
  next
    case (Break lastErr' w')
    note b = loop_body_Break [OF Break "1.prems"]
    have "AddToDynalist_loop jsonData lastErr retryCount w = after_loop lastErr' w'"
      using "1.prems" Break by (subst AddToDynalist_loop.simps) simp
    then show ?thesis
      using b(1,6) by (simp add: after_loop_def spec_attempts_stop requests_of_append)
  next
    case (Return r w')
    note b = loop_body_Return [OF Return]
    have "AddToDynalist_loop jsonData lastErr retryCount w = (r, w')"
      using "1.prems" Return by (subst AddToDynalist_loop.simps) simp
    then show ?thesis
      using b(2,6) by (simp add: spec_attempts_stop requests_of_append)
  qed
qed

lemma loop_events:
  "retryCount \<le> maxRetries \<Longrightarrow> 0 \<le> retryCount \<Longrightarrow>
   \<exists>es. events (snd (AddToDynalist_loop jsonData lastErr retryCount w)) =
           events w @ HttpPost (request_for jsonData) # es \<and>
         retry_pairs (request_for jsonData) es"
proof (induction jsonData lastErr retryCount w rule: AddToDynalist_loop.induct)
  case (1 jsonData lastErr retryCount w)
  show ?case
  proof (cases "loop_body jsonData lastErr retryCount w")
    case (Continue lastErr' retryCount' w')
    note b = loop_body_Continue [OF Continue]
    let ?w1 = "w\<lparr>events := events w @ [HttpPost (request_for jsonData)], replies := replies w \<circ> Suc\<rparr>"
    let ?dl = "fst (calculateBackoff retryCount' ?w1)"
    have k': "1 \<le> retryCount'" using b(1) "1.prems" by simp
    obtain es where es: "events (snd (AddToDynalist_loop jsonData lastErr' retryCount' w')) =
        events w' @ HttpPost (request_for jsonData) # es" "retry_pairs (request_for jsonData) es"
      using "1.IH" [OF "1.prems"(1) Continue] b(2) k' by auto
    have eq: "AddToDynalist_loop jsonData lastErr retryCount w =
        AddToDynalist_loop jsonData lastErr' retryCount' w'"
      using "1.prems" Continue by (subst AddToDynalist_loop.simps) simp
    have "events (snd (AddToDynalist_loop jsonData lastErr retryCount w)) =
        events w @ HttpPost (request_for jsonData) # (Sleep ?dl # HttpPost (request_for jsonData) # es)"
      using eq es(1) b(7) by simp
    moreover have "retry_pairs (request_for jsonData) (Sleep ?dl # HttpPost (request_for jsonData) # es)"
      using es(2) calculateBackoff_bounds [OF k', of ?w1] by simp
    ultimately show ?thesis by blast
  next
    case (Break lastErr' w')
    note b = loop_body_Break [OF Break "1.prems"(1)]
    have "AddToDynalist_loop jsonData lastErr retryCount w = after_loop lastErr' w'"
      using "1.prems" Break by (subst AddToDynalist_loop.simps) simp
    then show ?thesis
      using b(6) by (simp add: after_loop_def)
  next
    case (Return r w')
    note b = loop_body_Return [OF Return]
    have "AddToDynalist_loop jsonData lastErr retryCount w = (r, w')"
      using "1.prems" Return by (subst AddToDynalist_loop.simps) simp
    then show ?thesis
      using b(6) by simp
  qed
qed

lemma loop_body_retried:
  assumes "retryCount \<le> maxRetries"
  shows "(\<exists>lastErr' w'. loop_body jsonData lastErr retryCount w = Continue lastErr' (retryCount + 1) w')
           = spec_retry retryCount (replies w 0)"
proof (cases "loop_body jsonData lastErr retryCount w")
  case (Continue lastErr' retryCount' w')
  from loop_body_Continue(1,3) [OF Continue] Continue show ?thesis by simp
next
  case (Break lastErr' w')
  from loop_body_Break(1) [OF Break assms] Break show ?thesis by simp
next
  case (Return r w')
  from loop_body_Return(2) [OF Return] Return show ?thesis by simp
qed


lemma loop_final:
  "retryCount \<le> maxRetries \<Longrightarrow>
   (fst (AddToDynalist_loop jsonData lastErr retryCount w) = None)
     = is_Ok (replies w (spec_attempts retryCount (replies w) - 1))"
proof (induction jsonData lastErr retryCount w rule: AddToDynalist_loop.induct)
  case (1 jsonData lastErr retryCount w)
  show ?case
  proof (cases "loop_body jsonData lastErr retryCount w")
    case (Continue lastErr' retryCount' w')
    note b = loop_body_Continue [OF Continue]
    have eq: "AddToDynalist_loop jsonData lastErr retryCount w =
        AddToDynalist_loop jsonData lastErr' retryCount' w'"
      using "1.prems" Continue by (subst AddToDynalist_loop.simps) simp
    have n: "spec_attempts retryCount (replies w) = Suc (spec_attempts retryCount' (replies w'))"
      using b(1,3,4) by (simp add: spec_attempts_retry)
    obtain j where j: "spec_attempts retryCount' (replies w') = Suc j"
      using spec_attempts_pos [of retryCount' "replies w'"] by (cases "spec_attempts retryCount' (replies w')") auto
    show ?thesis
      using "1.IH" [OF "1.prems" Continue b(2)]
      unfolding eq n j by (simp add: b(4))
  next
    case (Break lastErr' w')
    note b = loop_body_Break [OF Break "1.prems"]
    have "AddToDynalist_loop jsonData lastErr retryCount w = after_loop lastErr' w'"
      using "1.prems" Break by (subst AddToDynalist_loop.simps) simp
    then show ?thesis
      using b(1,2,7) by (simp add: after_loop_def spec_attempts_stop)
  next
    case (Return r w')
    note b = loop_body_Return [OF Return]
    have "AddToDynalist_loop jsonData lastErr retryCount w = (r, w')"
      using "1.prems" Return by (subst AddToDynalist_loop.simps) simp
    then show ?thesis
      using b(1,2,8) by (simp add: spec_attempts_stop)
  qed
qed

lemma AddToDynalist_unfold:
  "AddToDynalist token content note w =
     AddToDynalist_loop (payload token content note) None 0
       (w\<lparr>draws := draws w \<circ> Suc,
          events := events w @ [Sleep (minPause + int (draws w 0) mod (maxPause - minPause))],
          Stats := (Stats w)\<lparr>TotalCalls := TotalCalls (Stats w) + 1\<rparr>\<rparr>)"
  by (simp add: AddToDynalist_def rand_Int63n_def time_Sleep_def json_Marshal_def payload_def Let_def)

lemma maxRetries_nonneg: "(0::int) \<le> maxRetries"
  by (simp add: maxRetries_def)

text \<open>
  C1. Whatever the endpoint answers and whatever the random source gives, one call of
  \<open>AddToDynalist\<close> returns, having sent at least one and at most \<open>maxRetries + 1 = 6\<close>
  requests (so at most 5 retries), all with the same payload.
\<close>

theorem AddToDynalist_bounded_attempts:
  "\<exists>n. 1 \<le> n \<and> int n \<le> maxRetries + 1 \<and> n \<le> 6 \<and>
       requests_of (events (snd (AddToDynalist token content note w))) =
         requests_of (events w) @ replicate n (request_for (payload token content note))"
proof -
  let ?w = "w\<lparr>draws := draws w \<circ> Suc,
          events := events w @ [Sleep (minPause + int (draws w 0) mod (maxPause - minPause))],
          Stats := (Stats w)\<lparr>TotalCalls := TotalCalls (Stats w) + 1\<rparr>\<rparr>"
  let ?n = "spec_attempts 0 (replies ?w)"
  have "requests_of (events (snd (AddToDynalist token content note w))) =
      requests_of (events w) @ replicate ?n (request_for (payload token content note))"
    unfolding AddToDynalist_unfold
    by (subst loop_requests [OF maxRetries_nonneg]) (simp add: requests_of_append)
  moreover have "1 \<le> ?n" by (rule spec_attempts_pos)
  moreover have "int ?n \<le> maxRetries + 1"
    using spec_attempts_bound [OF maxRetries_nonneg, of "replies ?w"] by simp
  moreover from this have "?n \<le> 6" by (simp add: maxRetries_def)
  ultimately show ?thesis by blast
qed

text \<open>
  C2. One pass through the loop body goes on to a further attempt exactly when the rule
  \<open>spec_retry\<close> says so: a transport or decoding failure and a rate-limited reply while
  fewer than \<open>maxRetries\<close> retries have been made, any other reply that is not \<open>Ok\<close>
  while fewer than two retries have been made. A call of \<open>AddToDynalist\<close> sends exactly the
  number of requests that the rule prescribes for the replies it gets, and returns \<open>nil\<close>
  exactly when the reply to the last request is \<open>Ok\<close>.
\<close>

theorem AddToDynalist_classification:
  "(retryCount \<le> maxRetries \<longrightarrow>
      (\<exists>lastErr' w'. loop_body jsonData lastErr retryCount w = Continue lastErr' (retryCount + 1) w')
        = spec_retry retryCount (replies w 0)) \<and>
   requests_of (events (snd (AddToDynalist token content note w))) =
     requests_of (events w) @
       replicate (spec_attempts 0 (replies w)) (request_for (payload token content note)) \<and>
   (fst (AddToDynalist token content note w) = None)
     = is_Ok (replies w (spec_attempts 0 (replies w) - 1))"
proof -
  let ?w = "w\<lparr>draws := draws w \<circ> Suc,
          events := events w @ [Sleep (minPause + int (draws w 0) mod (maxPause - minPause))],
          Stats := (Stats w)\<lparr>TotalCalls := TotalCalls (Stats w) + 1\<rparr>\<rparr>"
  have a: "requests_of (events (snd (AddToDynalist token content note w))) =
      requests_of (events w) @
        replicate (spec_attempts 0 (replies w)) (request_for (payload token content note))"
    unfolding AddToDynalist_unfold
    by (subst loop_requests [OF maxRetries_nonneg]) (simp add: requests_of_append)
  have b: "(fst (AddToDynalist token content note w) = None)
      = is_Ok (replies w (spec_attempts 0 (replies w) - 1))"
    unfolding AddToDynalist_unfold
    by (subst loop_final [OF maxRetries_nonneg]) simp
  show ?thesis
    using a b loop_body_retried [of retryCount jsonData lastErr w] by blast
qed

theorem AddToDynalist_classification_witness:
  "spec_attempts 0 (\<lambda>i. Decoded \<lparr>Code = ''Invalid'', Message = [], FileID = [], NodeID = [], Index = 0\<rparr>) = 3 \<and>
   requests_of (events (snd (AddToDynalist ''tok'' ''T'' ''B''
       (initial_World (\<lambda>i. Decoded \<lparr>Code = ''Invalid'', Message = [], FileID = [], NodeID = [], Index = 0\<rparr>)
          (\<lambda>i. 0) (\<lambda>p. False))))) =
     replicate 3 (request_for (payload ''tok'' ''T'' ''B'')) \<and>
   fst (AddToDynalist ''tok'' ''T'' ''B''
       (initial_World (\<lambda>i. Decoded \<lparr>Code = ''Invalid'', Message = [], FileID = [], NodeID = [], Index = 0\<rparr>)
          (\<lambda>i. 0) (\<lambda>p. False))) \<noteq> None \<and>
   (\<exists>lastErr' w'. loop_body (payload ''tok'' ''T'' ''B'') None 1
       (initial_World (\<lambda>i. Decoded \<lparr>Code = ''Invalid'', Message = [], FileID = [], NodeID = [], Index = 0\<rparr>)
          (\<lambda>i. 0) (\<lambda>p. False)) = Continue lastErr' 2 w')"
proof -
  let ?rs = "\<lambda>i::nat. Decoded \<lparr>Code = ''Invalid'', Message = [], FileID = [], NodeID = [], Index = 0\<rparr>"
  have n: "spec_attempts 0 ?rs = 3"
    by (simp add: spec_attempts.simps o_def maxRetries_def)
  show ?thesis
    using AddToDynalist_classification [of 1 "payload ''tok'' ''T'' ''B''" None
        "initial_World ?rs (\<lambda>i. 0) (\<lambda>p. False)" "''tok''" "''T''" "''B''"]
    by (simp add: n initial_World_def maxRetries_def)
qed



lemma is_Ok_not_retried: "is_Ok r \<Longrightarrow> \<not> spec_retry k r"
  by (cases r) auto


lemma spec_attempts_Ok_first: "is_Ok (rs 0) \<Longrightarrow> spec_attempts k rs = 1"
  by (simp add: spec_attempts_stop is_Ok_not_retried)




text \<open>
  When every attempt fails in transport, six requests are sent and \<open>Retries\<close> grows by six:
  the failure of the last attempt is counted too, although no attempt follows it.
\<close>

lemma AddToDynalist_exhausted_example:
  "length (requests_of (events (snd (AddToDynalist ''tok'' ''T'' ''B''
      (initial_World (\<lambda>i. TransportError ''timeout'') (\<lambda>i. 0) (\<lambda>p. False)))))) = 6 \<and>
   Retries (Stats (snd (AddToDynalist ''tok'' ''T'' ''B''
      (initial_World (\<lambda>i. TransportError ''timeout'') (\<lambda>i. 0) (\<lambda>p. False))))) = 6 \<and>
   fst (AddToDynalist ''tok'' ''T'' ''B''
      (initial_World (\<lambda>i. TransportError ''timeout'') (\<lambda>i. 0) (\<lambda>p. False)))
     = Some ''failed to send request: timeout''"
  by (simp add: AddToDynalist_def AddToDynalist_loop.simps loop_body_def initial_World_def
      rand_Int63n_def rand_Float64_def time_Sleep_def json_Marshal_def http_NewRequest_def
      client_Do_def calculateBackoff_def backoff_with_def math_Pow_def Duration_of_float_def
      after_loop_def request_for_def payload_def dynalistAPIURL_def
      maxRetries_def minPause_def maxPause_def minDelay_def maxDelay_def Second_def Let_def)

section \<open>Properties of the orchestrator\<close>

lemma attachment_events_append:
  "attachment_events (xs @ ys) = attachment_events xs @ attachment_events ys"
  by (induction xs rule: attachment_events.induct) simp_all

lemma retry_pairs_no_attachment_events:
  "retry_pairs rq es \<Longrightarrow> attachment_events es = []"
  by (induction rq es rule: retry_pairs.induct) simp_all

lemma attachments_loop_world:
  "Stats (snd (attachments_loop join r2Client folderPath atts links w)) = Stats w \<and>
   replies (snd (attachments_loop join r2Client folderPath atts links w)) = replies w \<and>
   draws (snd (attachments_loop join r2Client folderPath atts links w)) = draws w \<and>
   requests_of (events (snd (attachments_loop join r2Client folderPath atts links w)))
     = requests_of (events w)"
  by (induction atts arbitrary: links w)
     (auto simp: findAttachmentFile_def UploadLocalFile_def Let_def requests_of_append
       split: prod.splits sum.splits)

lemma processMessage_unfold:
  "processMessage join note folderPath dynalistToken r2Client filePath w =
     (let phase = (case r2Client of
                     None \<Rightarrow> ([], w)
                   | Some client \<Rightarrow> attachments_loop join client folderPath (Attachments note) [] w);
          hashtags = processLabels (Labels note)
      in AddToDynalist dynalistToken
           (''gkeep: '' @ (if Title note = [] then shortenFilename filePath else Title note))
           (TextContent note
              @ (if fst phase = [] then []
                 else ''\<newline>\<newline>Attachments:\<newline>'' @ strings_Join (fst phase) ''\<newline>'')
              @ (if hashtags = [] then [] else ''\<newline>\<newline>'' @ hashtags))
           (snd phase))"
proof (cases r2Client)
  case None
  then show ?thesis by (simp add: processMessage_def Let_def)
next
  case (Some client)
  show ?thesis
  proof (cases "Attachments note")
    case Nil
    with Some show ?thesis by (simp add: processMessage_def Let_def)
  next
    case (Cons a as)
    with Some show ?thesis
      by (simp add: processMessage_def Let_def split_def del: attachments_loop.simps)
  qed
qed

lemma AddToDynalist_requests:
  "requests_of (events (snd (AddToDynalist token content body w))) =
     requests_of (events w) @
       replicate (spec_attempts 0 (replies w)) (request_for (payload token content body))"
  unfolding AddToDynalist_unfold
  by (subst loop_requests [OF maxRetries_nonneg]) (simp add: requests_of_append)

lemma processMessage_requests:
  "requests_of (events (snd (processMessage join note folderPath dynalistToken r2Client filePath w))) =
     requests_of (events w) @
       replicate (spec_attempts 0 (replies w))
         (request_for (payload dynalistToken
            (''gkeep: '' @ (if Title note = [] then shortenFilename filePath else Title note))
            (TextContent note
              @ (case r2Client of
                   None \<Rightarrow> []
                 | Some client \<Rightarrow>
                     (if fst (attachments_loop join client folderPath (Attachments note) [] w) = [] then []
                      else ''\<newline>\<newline>Attachments:\<newline>''
                        @ strings_Join (fst (attachments_loop join client folderPath (Attachments note) [] w))
                            ''\<newline>''))
              @ (if processLabels (Labels note) = [] then []
                 else ''\<newline>\<newline>'' @ processLabels (Labels note)))))"
  unfolding processMessage_unfold Let_def AddToDynalist_requests
  by (cases r2Client) (simp_all add: attachments_loop_world)

lemma AddToDynalist_attachment_events:
  "attachment_events (events (snd (AddToDynalist token content body w))) = attachment_events (events w)"
proof -
  let ?p = "minPause + int (draws w 0) mod (maxPause - minPause)"
  let ?w = "w\<lparr>draws := draws w \<circ> Suc, events := events w @ [Sleep ?p],
          Stats := (Stats w)\<lparr>TotalCalls := TotalCalls (Stats w) + 1\<rparr>\<rparr>"
  obtain es where "events (snd (AddToDynalist_loop (payload token content body) None 0 ?w)) =
      events ?w @ HttpPost (request_for (payload token content body)) # es"
    and "retry_pairs (request_for (payload token content body)) es"
    using loop_events [OF maxRetries_nonneg, of "payload token content body" None ?w] by auto
  then show ?thesis
    unfolding AddToDynalist_unfold
    by (simp add: attachment_events_append retry_pairs_no_attachment_events)
qed

text \<open>
  C6. Every request that \<open>processMessage\<close> sends for a note (at least one is sent) carries
  the same payload: its content field is the marker \<open>gkeep: \<close> followed by the title of the
  note, or by the title made from the file name when the note has none; its note field is
  the text of the note, followed by the block of attachment links when there are links,
  followed by a blank line and the hashtags when there are labels. For the title \<open>T\<close>, the
  text \<open>B\<close> and the labels \<open>Work\<close> and \<open>A B\<close>, without attachments, the content field is
  \<open>gkeep: T\<close> and the note field is \<open>B\<close>, a blank line and \<open>#Work #A_B\<close>.
  (\<open>processKeepFolder\<close> passes only notes that are not archived to \<open>processMessage\<close>.)
\<close>

theorem processMessage_payload:
  "requests_of (events (snd (processMessage join note folderPath dynalistToken r2Client filePath w))) =
     requests_of (events w) @
       replicate (spec_attempts 0 (replies w))
         (request_for (payload dynalistToken
            (''gkeep: '' @ (if Title note = [] then shortenFilename filePath else Title note))
            (TextContent note
              @ (case r2Client of
                   None \<Rightarrow> []
                 | Some client \<Rightarrow>
                     (if fst (attachments_loop join client folderPath (Attachments note) [] w) = [] then []
                      else ''\<newline>\<newline>Attachments:\<newline>''
                        @ strings_Join (fst (attachments_loop join client folderPath (Attachments note) [] w))
                            ''\<newline>''))
              @ (if processLabels (Labels note) = [] then []
                 else ''\<newline>\<newline>'' @ processLabels (Labels note))))) \<and>
   1 \<le> spec_attempts 0 (replies w) \<and>
   (Title note = ''T'' \<and> TextContent note = ''B'' \<and>
    Labels note = [\<lparr>Name = ''Work''\<rparr>, \<lparr>Name = ''A B''\<rparr>] \<and> Attachments note = [] \<longrightarrow>
      requests_of (events (snd (processMessage join note folderPath dynalistToken r2Client filePath w))) =
        requests_of (events w) @
          replicate (spec_attempts 0 (replies w))
            (request_for (payload dynalistToken ''gkeep: T'' ''B\<newline>\<newline>#Work #A_B'')))"
proof -
  have tags: "processLabels [\<lparr>Name = ''Work''\<rparr>, \<lparr>Name = ''A B''\<rparr>] = ''#Work #A_B''"
    by code_simp
  show ?thesis
    using processMessage_requests [of join "note" folderPath dynalistToken r2Client filePath w]
      spec_attempts_pos [of 0 "replies w"]
    by (auto simp: tags split: option.splits)
qed

theorem processMessage_payload_witness:
  "requests_of (events (snd (processMessage (\<lambda>a b. a @ ''/'' @ b)
      \<lparr>Title = ''T'', TextContent = ''B'', TextContentHTML = [], Attachments = [],
       Labels = [\<lparr>Name = ''Work''\<rparr>, \<lparr>Name = ''A B''\<rparr>],
       UserEditedTimestampUsec = 0, CreatedTimestampUsec = 0, IsArchived = False\<rparr>
      ''/keep'' ''tok'' None ''/keep/n.json''
      (initial_World (\<lambda>i. Decoded \<lparr>Code = ''Ok'', Message = [], FileID = [], NodeID = [], Index = 0\<rparr>)
         (\<lambda>i. 0) (\<lambda>p. False))))) =
     [request_for (payload ''tok'' ''gkeep: T'' ''B\<newline>\<newline>#Work #A_B'')]"
proof -
  let ?w = "initial_World (\<lambda>i. Decoded \<lparr>Code = ''Ok'', Message = [], FileID = [], NodeID = [], Index = 0\<rparr>)
         (\<lambda>i. 0) (\<lambda>p. False)"
  have n: "spec_attempts 0 (replies ?w) = 1"
    by (rule spec_attempts_Ok_first) (simp add: initial_World_def)
  have e: "events ?w = []" by (simp add: initial_World_def)
  have tags: "processLabels [\<lparr>Name = ''Work''\<rparr>, \<lparr>Name = ''A B''\<rparr>] = ''#Work #A_B''"
    by code_simp
  show ?thesis
    using processMessage_payload [of "\<lambda>a b. a @ ''/'' @ b"
        "\<lparr>Title = ''T'', TextContent = ''B'', TextContentHTML = [], Attachments = [],
       Labels = [\<lparr>Name = ''Work''\<rparr>, \<lparr>Name = ''A B''\<rparr>],
       UserEditedTimestampUsec = 0, CreatedTimestampUsec = 0, IsArchived = False\<rparr>"
        "''/keep''" "''tok''" None "''/keep/n.json''" ?w]
    unfolding n e by (simp add: tags)
qed

text \<open>
  C7, as stated, fails: for a note with the title \<open>T\<close> and the label \<open>Work\<close> the hashtag
  string is \<open>#Work\<close>, and the content field of the request is \<open>gkeep: T\<close>, which does not
  end with it.
\<close>

theorem processMessage_title_counterexample:
  "processLabels [\<lparr>Name = ''Work''\<rparr>] = ''#Work'' \<and>
   requests_of (events (snd (processMessage (\<lambda>a b. a @ ''/'' @ b)
      \<lparr>Title = ''T'', TextContent = ''B'', TextContentHTML = [], Attachments = [],
       Labels = [\<lparr>Name = ''Work''\<rparr>],
       UserEditedTimestampUsec = 0, CreatedTimestampUsec = 0, IsArchived = False\<rparr>
      ''/keep'' ''tok'' None ''/keep/n.json''
      (initial_World (\<lambda>i. Decoded \<lparr>Code = ''Ok'', Message = [], FileID = [], NodeID = [], Index = 0\<rparr>)
         (\<lambda>i. 0) (\<lambda>p. False))))) =
     [request_for (payload ''tok'' ''gkeep: T'' ''B\<newline>\<newline>#Work'')] \<and>
   Content (Body (request_for (payload ''tok'' ''gkeep: T'' ''B\<newline>\<newline>#Work''))) = ''gkeep: T'' \<and>
   \<not> suffix ''#Work'' ''gkeep: T''"
proof -
  let ?w = "initial_World (\<lambda>i. Decoded \<lparr>Code = ''Ok'', Message = [], FileID = [], NodeID = [], Index = 0\<rparr>)
         (\<lambda>i. 0) (\<lambda>p. False)"
  have tags: "processLabels [\<lparr>Name = ''Work''\<rparr>] = ''#Work''"
    by code_simp
  have n: "spec_attempts 0 (replies ?w) = 1"
    by (rule spec_attempts_Ok_first) (simp add: initial_World_def)
  have e: "events ?w = []" by (simp add: initial_World_def)
  have ns: "\<not> suffix ''#Work'' ''gkeep: T''"
    by (simp add: suffix_def)
  show ?thesis
    using processMessage_requests [of "\<lambda>a b. a @ ''/'' @ b"
        "\<lparr>Title = ''T'', TextContent = ''B'', TextContentHTML = [], Attachments = [],
       Labels = [\<lparr>Name = ''Work''\<rparr>],
       UserEditedTimestampUsec = 0, CreatedTimestampUsec = 0, IsArchived = False\<rparr>"
        "''/keep''" "''tok''" None "''/keep/n.json''" ?w] ns
    unfolding n e by (simp add: tags request_for_def payload_def)
qed

text \<open>
  C7, amended. The content field of every request is the marker followed by the title (or
  by the title made from the file name), with nothing appended; when the hashtag string is
  not empty, it is the note field that ends with it, after a blank line.
\<close>

theorem processMessage_title_and_hashtags:
  "\<exists>text. requests_of (events (snd (processMessage join note folderPath dynalistToken r2Client filePath w))) =
       requests_of (events w) @
         replicate (spec_attempts 0 (replies w))
           (request_for (payload dynalistToken
              (''gkeep: '' @ (if Title note = [] then shortenFilename filePath else Title note))
              text)) \<and>
     1 \<le> spec_attempts 0 (replies w) \<and>
     (processLabels (Labels note) \<noteq> [] \<longrightarrow>
        suffix (''\<newline>\<newline>'' @ processLabels (Labels note)) text)"
  using processMessage_requests [of join "note" folderPath dynalistToken r2Client filePath w]
    spec_attempts_pos [of 0 "replies w"]
  by (auto simp: suffix_def)

theorem processMessage_title_and_hashtags_witness:
  "processLabels [\<lparr>Name = ''Work''\<rparr>] \<noteq> [] \<and>
   (\<exists>text. requests_of (events (snd (processMessage (\<lambda>a b. a @ ''/'' @ b)
      \<lparr>Title = ''T'', TextContent = ''B'', TextContentHTML = [], Attachments = [],
       Labels = [\<lparr>Name = ''Work''\<rparr>],
       UserEditedTimestampUsec = 0, CreatedTimestampUsec = 0, IsArchived = False\<rparr>
      ''/keep'' ''tok'' None ''/keep/n.json''
      (initial_World (\<lambda>i. Decoded \<lparr>Code = ''Ok'', Message = [], FileID = [], NodeID = [], Index = 0\<rparr>)
         (\<lambda>i. 0) (\<lambda>p. False))))) =
     [request_for (payload ''tok'' ''gkeep: T'' text)] \<and> suffix ''\<newline>\<newline>#Work'' text)"
proof -
  let ?w = "initial_World (\<lambda>i. Decoded \<lparr>Code = ''Ok'', Message = [], FileID = [], NodeID = [], Index = 0\<rparr>)
         (\<lambda>i. 0) (\<lambda>p. False)"
  have tags: "processLabels [\<lparr>Name = ''Work''\<rparr>] = ''#Work''"
    by code_simp
  have n: "spec_attempts 0 (replies ?w) = 1"
    by (rule spec_attempts_Ok_first) (simp add: initial_World_def)
  have e: "events ?w = []" by (simp add: initial_World_def)
  show ?thesis
    using processMessage_title_and_hashtags [of "\<lambda>a b. a @ ''/'' @ b"
        "\<lparr>Title = ''T'', TextContent = ''B'', TextContentHTML = [], Attachments = [],
       Labels = [\<lparr>Name = ''Work''\<rparr>],
       UserEditedTimestampUsec = 0, CreatedTimestampUsec = 0, IsArchived = False\<rparr>"
        "''/keep''" "''tok''" None "''/keep/n.json''" ?w]
    unfolding n e by (simp add: tags)
qed

text \<open>
  C10. Without a storage client, for every note, whatever attachments it declares,
  \<open>processMessage\<close> looks up no file and uploads nothing, and every request it sends (at
  least one) has as its note field the text of the note followed only by the hashtags (after
  a blank line, when there are labels): no block of attachments.
\<close>

theorem processMessage_without_storage:
  "requests_of (events (snd (processMessage join note folderPath dynalistToken None filePath w))) =
     requests_of (events w) @
       replicate (spec_attempts 0 (replies w))
         (request_for (payload dynalistToken
            (''gkeep: '' @ (if Title note = [] then shortenFilename filePath else Title note))
            (TextContent note
              @ (if processLabels (Labels note) = [] then []
                 else ''\<newline>\<newline>'' @ processLabels (Labels note))))) \<and>
   1 \<le> spec_attempts 0 (replies w) \<and>
   attachment_events (events (snd (processMessage join note folderPath dynalistToken None filePath w)))
     = attachment_events (events w)"
  using processMessage_requests [of join "note" folderPath dynalistToken None filePath w]
    spec_attempts_pos [of 0 "replies w"]
  by (simp add: processMessage_unfold Let_def AddToDynalist_attachment_events)

end
